theory Spec2Isabelle
  imports
    Main
    "HOL-Library.Word"
    "HOL-Library.Sublist"
    "HOL-Library.AList"
    "HOL-Library.Char_ord"
    "HOL-Library.List_Lexorder"
begin

section \<open>Value sanitizer (\<open>sanitize_tag\<close>)\<close>

text \<open>
  Python strings are modelled as \<open>string\<close> (lists of 8-bit characters). Every character
  the sanitizer tests for is ASCII, so the byte view and the code-point view of a string
  agree on what is removed.

  \<open>string.punctuation\<close> is the constant
  \<^verbatim>\<open>!"#$%&'()*+,-./:;<=>?@[\]^_`{|}~\<close> of the Python standard library.
\<close>

definition string_punctuation :: string where
  "string_punctuation =
     [CHR ''!'', CHR 0x22, CHR ''#'', CHR ''$'', CHR ''%'', CHR ''&'', CHR 0x27,
      CHR ''('', CHR '')'', CHR ''*'', CHR ''+'', CHR '','', CHR ''-'', CHR ''.'',
      CHR ''/'', CHR '':'', CHR '';'', CHR ''<'', CHR ''='', CHR ''>'', CHR ''?'',
      CHR ''@'', CHR ''['', CHR 0x5C, CHR '']'', CHR ''^'', CHR ''_'', CHR 0x60,
      CHR ''{'', CHR ''|'', CHR ''}'', CHR ''~'']"

definition tab_char :: char where
  "tab_char = CHR 0x09"

definition newline_char :: char where
  "newline_char = CHR 0x0A"

definition space_char :: char where
  "space_char = CHR '' ''"

text \<open>The characters kept although they are punctuation: \<^verbatim>\<open>["-", "+", "_", ":", ".", "|"]\<close>.\<close>

definition keep_chars :: string where
  "keep_chars = [CHR ''-'', CHR ''+'', CHR ''_'', CHR '':'', CHR ''.'', CHR ''|'']"

text \<open>
  \<^verbatim>\<open>invalid = list(string.punctuation + "\t" + "\n")\<close>, then
  \<^verbatim>\<open>for keep in [...]: invalid.remove(keep)\<close>. Python's \<open>list.remove\<close> deletes the first
  occurrence, as \<open>remove1\<close> does; every kept character occurs in the list, so no
  \<open>ValueError\<close> is raised.
\<close>

definition invalid_chars :: string where
  "invalid_chars =
     fold remove1 keep_chars (string_punctuation @ [tab_char] @ [newline_char])"

text \<open>The loop \<^verbatim>\<open>for char in raw: if char not in invalid: clean += char\<close>.\<close>

fun remove_symbols :: "string \<Rightarrow> string \<Rightarrow> string" where
  "remove_symbols [] clean = clean"
| "remove_symbols (char # raw) clean =
     (if char \<notin> set invalid_chars then remove_symbols raw (clean @ [char])
      else remove_symbols raw clean)"

text \<open>The test \<^verbatim>\<open>"  " in clean\<close>: two adjacent spaces occur somewhere.\<close>

fun has_double_space :: "string \<Rightarrow> bool" where
  "has_double_space (a # b # s) =
     (if a = space_char \<and> b = space_char then True else has_double_space (b # s))"
| "has_double_space s = False"

text \<open>
  \<^verbatim>\<open>clean.replace("  ", " ")\<close>: Python scans from the left and replaces non-overlapping
  occurrences, so after a match the scan resumes behind both spaces.
\<close>

fun replace_double_space :: "string \<Rightarrow> string" where
  "replace_double_space (a # b # s) =
     (if a = space_char \<and> b = space_char then space_char # replace_double_space s
      else a # replace_double_space (b # s))"
| "replace_double_space s = s"

lemma length_replace_double_space_le:
  "length (replace_double_space s) \<le> length s"
  by (induction s rule: replace_double_space.induct) auto

lemma length_replace_double_space_less:
  "has_double_space s \<Longrightarrow> length (replace_double_space s) < length s"
proof (induction s rule: has_double_space.induct)
  case (1 a b s)
  show ?case
  proof (cases "a = space_char \<and> b = space_char")
    case True
    have "length (replace_double_space s) \<le> length s"
      by (rule length_replace_double_space_le)
    with True show ?thesis by simp
  next
    case False
    with 1 show ?thesis by auto
  qed
qed simp_all

text \<open>The loop \<^verbatim>\<open>while "  " in clean: clean = clean.replace("  ", " ")\<close>.\<close>

function collapse_spaces :: "string \<Rightarrow> string" where
  "collapse_spaces clean =
     (if has_double_space clean then collapse_spaces (replace_double_space clean)
      else clean)"
  by pat_completeness auto
termination
  by (relation "measure length") (auto simp: length_replace_double_space_less)

declare collapse_spaces.simps [simp del]

definition sanitize_tag :: "string \<Rightarrow> string" where
  "sanitize_tag raw = collapse_spaces (remove_symbols raw [])"


section \<open>Exceptions\<close>

text \<open>
  The exception classes the program names in its handlers, and the ones that reach no
  handler. \<open>PermissionError\<close> is a subclass of \<open>OSError\<close>; \<open>OSError\<close> stands for every
  other operating-system error (\<open>FileNotFoundError\<close>, a full disk, and so on);
  \<open>ValueError\<close> includes its subclass \<open>UnicodeError\<close>.
\<close>

datatype py_error =
    OSError
  | PermissionError
  | ValueError
  | KeyError
  | InvalidDicomError
  | DtypeWarning
  | AttributeError
  | UnboundLocalError
  | OtherError

text \<open>\<^verbatim>\<open>except (OSError, ValueError, KeyError, InvalidDicomError)\<close> in \<open>parse_tags\<close>.\<close>

definition parse_tags_handles :: "py_error \<Rightarrow> bool" where
  "parse_tags_handles e =
     (e \<in> set [OSError, PermissionError, ValueError, KeyError, InvalidDicomError])"

text \<open>
  \<^verbatim>\<open>except (PermissionError, ValueError, pd.errors.DtypeWarning)\<close> in \<open>extract_to_df\<close> and
  in \<open>write_to_file\<close>.
\<close>

definition extract_to_df_handles :: "py_error \<Rightarrow> bool" where
  "extract_to_df_handles e = (e \<in> set [PermissionError, ValueError, DtypeWarning])"

definition write_to_file_handles :: "py_error \<Rightarrow> bool" where
  "write_to_file_handles e = (e \<in> set [PermissionError, ValueError, DtypeWarning])"

text \<open>
  \<^verbatim>\<open>except (OSError, PermissionError, ValueError, InvalidDicomError)\<close> in
  \<open>dump_tags_to_txt\<close>.
\<close>

definition dump_tags_to_txt_handles :: "py_error \<Rightarrow> bool" where
  "dump_tags_to_txt_handles e =
     (e \<in> set [OSError, PermissionError, ValueError, InvalidDicomError])"

section \<open>Paths, dictionaries and the log\<close>

text \<open>
  A \<open>pathlib.Path\<close> is modelled as the list of its components below the root; all paths
  are absolute, so \<open>Path.absolute\<close> is the identity. \<open>Path.parts\<close> puts the root first.
\<close>

type_synonym path = "string list"

definition path_parts :: "path \<Rightarrow> string list" where
  "path_parts p = ''/'' # p"

definition path_name :: "path \<Rightarrow> string" where
  "path_name p = (if p = [] then [] else last p)"

definition joinpath :: "path \<Rightarrow> string \<Rightarrow> path" where
  "joinpath p name = p @ [name]"

text \<open>
  \<open>Path.stem\<close>: the name without its last suffix. With \<open>i = name.rfind(".")\<close>, the suffix
  is cut when \<open>0 < i < len(name) - 1\<close>.
\<close>

definition path_stem :: "path \<Rightarrow> string" where
  "path_stem p =
     (let name = path_name p;
          after_dot = length (takeWhile (\<lambda>c. c \<noteq> CHR ''.'') (rev name))
      in if after_dot < length name \<and> 0 < length name - 1 - after_dot \<and> 0 < after_dot
         then take (length name - 1 - after_dot) name
         else name)"

fun join_with :: "string \<Rightarrow> string list \<Rightarrow> string" where
  "join_with sep [] = []"
| "join_with sep [x] = x"
| "join_with sep (x # y # ys) = x @ sep @ join_with sep (y # ys)"

text \<open>
  \<open>limit_path\<close> of \<open>dcm_lib\<close>, always called with the default \<open>level = 2\<close> and the POSIX
  separator: the last two parts of the path.
\<close>

definition limit_path :: "path \<Rightarrow> string" where
  "limit_path p =
     join_with ''/'' (drop (length (path_parts p) - 2) (path_parts p))"

text \<open>
  A Python \<open>dict\<close> keeps insertion order: an association list with distinct keys, where
  \<open>d[k] = v\<close> is \<open>AList.update k v d\<close> (in place for a key that is present, appended
  otherwise).
\<close>

type_synonym py_dict = "(string \<times> string) list"

definition dict_get :: "('k \<times> 'v) list \<Rightarrow> 'k \<Rightarrow> 'v \<Rightarrow> 'v" where
  "dict_get d k dflt = (case map_of d k of Some v \<Rightarrow> v | None \<Rightarrow> dflt)"

datatype log_entry =
    Found nat string bool
  | Info string
  | Exception_logged string py_error
  | Purged nat string
  | Dumped nat string
  | Finished

section \<open>Static tables\<close>

type_synonym tag = "16 word \<times> 16 word"

definition Tag :: "16 word \<Rightarrow> 16 word \<Rightarrow> tag" where
  "Tag grp elem = (grp, elem)"

definition get_transfer_syntax_map :: "bool \<Rightarrow> (string \<times> string) list" where
  "get_transfer_syntax_map include_reverse =
     (let transfer_syntax_map =
        [(''1.2.840.10008.1.2'', ''ImplicitVRLittleEndian''),
         (''1.2.840.10008.1.2.1'', ''ExplicitVRLittleEndian''),
         (''1.2.840.10008.1.2.2'', ''ExplicitVRBigEndian''),
         (''1.2.840.10008.1.2.4.50'', ''JPEGBaseLineLossy8bit''),
         (''1.2.840.10008.1.2.4.51'', ''JPEGBaseLineLossy12bit''),
         (''1.2.840.10008.1.2.4.70'', ''JPEGLossless''),
         (''1.2.840.10008.1.2.4.80'', ''JPEGLSLossless''),
         (''1.2.840.10008.1.2.4.90'', ''JPEG2000Lossless''),
         (''1.2.840.10008.1.2.4.91'', ''JPEG2000Lossy''),
         (''1.2.840.10008.1.2.5'', ''RLELossless'')]
      in if include_reverse
         then fold (\<lambda>(k, v). AList.update v k) transfer_syntax_map transfer_syntax_map
         else transfer_syntax_map)"

definition map_tag_objects :: "(string \<times> tag) list" where
  "map_tag_objects =
     [(''modality'', Tag 0x0008 0x0060),
      (''sopInstanceUid'', Tag 0x0002 0x0003),
      (''institution_name'', Tag 0x0008 0x0080),
      (''manufacturer'', Tag 0x0008 0x0070),
      (''manufacturer_model'', Tag 0x0008 0x1090),
      (''sourceAET'', Tag 0x0002 0x0016),
      (''station_name'', Tag 0x0008 0x1010),
      (''study_description'', Tag 0x0008 0x1030),
      (''study_date'', Tag 0x0008 0x0020),
      (''study_time'', Tag 0x0008 0x0030),
      (''transferSyntaxUid'', Tag 0x0002 0x0010)]"

definition init_header_map :: "string \<Rightarrow> py_dict" where
  "init_header_map filename =
     (let default_str = [];
          headers = [''filename''] @ map fst map_tag_objects;
          hdr_map = fold (\<lambda>hdr. AList.update hdr default_str) headers []
      in AList.update ''filename'' filename hdr_map)"

section \<open>Tag parser (\<open>parse_tags\<close>)\<close>

text \<open>
  What \<open>pydicom.dcmread(path, stop_before_pixels=True)\<close> returns: the file-meta group
  \<open>ds.file_meta\<close> and the main data set, each a finite map from tags to values. The
  values of the attributes read here are text, as \<open>sanitize_tag\<close> expects
  (\<^verbatim>\<open>raw: str\<close>).
\<close>

record dataset =
  file_meta :: "tag \<rightharpoonup> string"
  elements :: "tag \<rightharpoonup> string"

datatype cell = Str string | NaN

record data_frame =
  columns :: "string list"
  rows :: "(string \<times> cell) list list"

text \<open>
  The libraries and the clock are parameters of the model: what \<open>pydicom.misc.is_dicom\<close>
  and \<open>pydicom.dcmread\<close> do on a path (a result or an exception), \<open>str(ds)\<close>,
  \<open>datetime.now().strftime(...)\<close>, the two pandas column conversions
  (\<open>to_datetime\<close> with \<open>errors="coerce"\<close> followed by \<open>strftime\<close>), and what
  \<open>DataFrame.to_json\<close> and \<open>DataFrame.to_csv\<close> do for a table and a target path: the
  text written, or the exception raised.
\<close>

record env =
  is_dicom :: "path \<Rightarrow> py_error + bool"
  dcmread :: "path \<Rightarrow> py_error + dataset"
  ds_str :: "dataset \<Rightarrow> string"
  now :: string
  study_date_format :: "cell \<Rightarrow> cell"
  study_time_format :: "cell \<Rightarrow> cell"
  to_json :: "data_frame \<Rightarrow> path \<Rightarrow> py_error + string"
  to_csv :: "data_frame \<Rightarrow> path \<Rightarrow> py_error + string"

definition metadata_attrs :: "string list" where
  "metadata_attrs = [''sopInstanceUid'', ''sourceAET'', ''transferSyntaxUid'']"

text \<open>One round of the loop \<^verbatim>\<open>for attr, tag_obj in map_tag_objects().items()\<close>.\<close>

definition extract_attr ::
  "dataset \<Rightarrow> bool \<Rightarrow> (string \<times> string) list \<Rightarrow> string \<times> tag \<Rightarrow> py_dict \<Rightarrow> py_dict" where
  "extract_attr ds sanitize_values syntax_map = (\<lambda>(attr, tag_obj) extract.
     if attr \<in> set metadata_attrs then
       (case file_meta ds tag_obj of
          Some v \<Rightarrow>
            AList.update ''transferSyntaxName'' (dict_get syntax_map v [])
              (AList.update attr v extract)
        | None \<Rightarrow> extract)
     else
       (case elements ds tag_obj of
          Some v \<Rightarrow>
            (let tag_val = (if sanitize_values then sanitize_tag v else v)
             in AList.update attr tag_val extract)
        | None \<Rightarrow> extract))"

text \<open>The body of the \<open>try\<close> block for one file: the record, or the exception raised.\<close>

definition read_tags :: "env \<Rightarrow> bool \<Rightarrow> path \<Rightarrow> py_error + py_dict" where
  "read_tags ev sanitize_values src_dcm =
     (let extract = init_header_map (path_name src_dcm);
          syntax_map = get_transfer_syntax_map False
      in case is_dicom ev src_dcm of
           Inl e \<Rightarrow> Inl e
         | Inr ok \<Rightarrow>
             if \<not> ok then Inl InvalidDicomError
             else (case dcmread ev src_dcm of
                     Inl e \<Rightarrow> Inl e
                   | Inr ds \<Rightarrow>
                       Inr (fold (extract_attr ds sanitize_values syntax_map)
                              map_tag_objects extract)))"

text \<open>
  The loop over \<open>dicom_paths\<close>. A handled exception is logged and the loop goes on; any
  other exception leaves the function.
\<close>

fun parse_loop ::
  "env \<Rightarrow> bool \<Rightarrow> path list \<Rightarrow> py_dict list \<Rightarrow> log_entry list
     \<Rightarrow> (py_error + py_dict list) \<times> log_entry list" where
  "parse_loop ev sanitize_values [] tag_dumps lg = (Inr tag_dumps, lg)"
| "parse_loop ev sanitize_values (src_dcm # rest) tag_dumps lg =
     (case read_tags ev sanitize_values src_dcm of
        Inr extract \<Rightarrow>
          parse_loop ev sanitize_values rest (tag_dumps @ [extract])
            (lg @ [Info (limit_path src_dcm)])
      | Inl e \<Rightarrow>
          if parse_tags_handles e
          then parse_loop ev sanitize_values rest tag_dumps
                 (lg @ [Exception_logged (limit_path src_dcm) e])
          else (Inl e, lg))"

definition parse_tags ::
  "env \<Rightarrow> path list \<Rightarrow> bool \<Rightarrow> log_entry list
     \<Rightarrow> (py_error + py_dict list) \<times> log_entry list" where
  "parse_tags ev dicom_paths sanitize_values lg =
     parse_loop ev sanitize_values dicom_paths [] lg"

section \<open>Tabulator (\<open>extract_to_df\<close>)\<close>

text \<open>
  \<open>pd.DataFrame(tag_dumps)\<close> on a list of dictionaries: the columns are the keys in the
  order of their first appearance, and a row that lacks a key holds \<open>NaN\<close> there.
\<close>

definition dict_keys_union :: "py_dict list \<Rightarrow> string list" where
  "dict_keys_union ds =
     fold (\<lambda>d cols. fold (\<lambda>k cs. if k \<in> set cs then cs else cs @ [k]) (map fst d) cols)
       ds []"

definition DataFrame :: "py_dict list \<Rightarrow> data_frame" where
  "DataFrame tag_dumps =
     (let cols = dict_keys_union tag_dumps
      in \<lparr>columns = cols,
          rows = map (\<lambda>d. map (\<lambda>c. (c, case map_of d c of Some v \<Rightarrow> Str v | None \<Rightarrow> NaN))
                              cols) tag_dumps\<rparr>)"

text \<open>\<^verbatim>\<open>df[name] = value\<close> with a scalar: the column is overwritten, or appended.\<close>

definition df_assign :: "string \<Rightarrow> cell \<Rightarrow> data_frame \<Rightarrow> data_frame" where
  "df_assign name v df =
     \<lparr>columns = (if name \<in> set (columns df) then columns df else columns df @ [name]),
      rows = map (AList.update name v) (rows df)\<rparr>"

text \<open>\<^verbatim>\<open>df[name] = f(df[name])\<close> for a conversion that works value by value.\<close>

definition df_convert :: "string \<Rightarrow> (cell \<Rightarrow> cell) \<Rightarrow> data_frame \<Rightarrow> data_frame" where
  "df_convert name f df = df\<lparr>rows := map (AList.map_entry name f) (rows df)\<rparr>"

definition extract_to_df ::
  "env \<Rightarrow> path list \<Rightarrow> log_entry list
     \<Rightarrow> (py_error + data_frame option) \<times> log_entry list" where
  "extract_to_df ev dicom_paths lg =
     (case parse_tags ev dicom_paths False lg of
        (Inl e, lg1) \<Rightarrow>
          if extract_to_df_handles e
          then (Inr None, lg1 @ [Exception_logged ''extract error'' e])
          else (Inl e, lg1)
      | (Inr tag_dumps, lg1) \<Rightarrow>
          if length tag_dumps > 0 then
            (let df = DataFrame tag_dumps;
                 df = df_assign ''extract_date'' (Str (now ev)) df;
                 df = (if ''study_date'' \<in> set (columns df)
                       then df_convert ''study_date'' (study_date_format ev) df else df);
                 df = (if ''study_time'' \<in> set (columns df)
                       then df_convert ''study_time'' (study_time_format ev) df else df)
             in (Inr (Some df), lg1))
          else (Inr None, lg1))"

section \<open>File system\<close>

text \<open>
  The part of the file system the program looks at: a finite table from paths to nodes,
  a node being a directory or a regular file with its text.
\<close>

datatype node = Directory | RegFile string

type_synonym filesystem = "(path \<times> node) list"

record world =
  fs :: filesystem
  log :: "log_entry list"

definition is_dir :: "filesystem \<Rightarrow> path \<Rightarrow> bool" where
  "is_dir f p = (case map_of f p of Some Directory \<Rightarrow> True | _ \<Rightarrow> False)"

definition is_file :: "filesystem \<Rightarrow> path \<Rightarrow> bool" where
  "is_file f p = (case map_of f p of Some (RegFile c) \<Rightarrow> True | _ \<Rightarrow> False)"

definition path_exists :: "filesystem \<Rightarrow> path \<Rightarrow> bool" where
  "path_exists f p = (case map_of f p of Some n \<Rightarrow> True | None \<Rightarrow> False)"

definition st_size :: "filesystem \<Rightarrow> path \<Rightarrow> nat" where
  "st_size f p = (case map_of f p of Some (RegFile c) \<Rightarrow> length c | _ \<Rightarrow> 0)"

definition unlink :: "filesystem \<Rightarrow> path \<Rightarrow> filesystem" where
  "unlink f p = AList.delete p f"

definition write_text :: "filesystem \<Rightarrow> path \<Rightarrow> string \<Rightarrow> filesystem" where
  "write_text f p c = AList.update p (RegFile c) f"

text \<open>\<open>mkdir(exist_ok=True, parents=True)\<close>: the directory and its missing ancestors.\<close>

definition mkdir_parents :: "filesystem \<Rightarrow> path \<Rightarrow> filesystem" where
  "mkdir_parents f p =
     fold (\<lambda>q g. if path_exists g q then g else g @ [(q, Directory)]) (prefixes p) f"

text \<open>\<open>str.endswith\<close>, and \<open>str.lower\<close> on the ASCII letters.\<close>

definition endswith :: "string \<Rightarrow> string \<Rightarrow> bool" where
  "endswith s suf = (length suf \<le> length s \<and> drop (length s - length suf) s = suf)"

definition char_lower :: "char \<Rightarrow> char" where
  "char_lower c =
     (case map_of (zip ''ABCDEFGHIJKLMNOPQRSTUVWXYZ'' ''abcdefghijklmnopqrstuvwxyz'') c of
        Some l \<Rightarrow> l
      | None \<Rightarrow> c)"

definition str_lower :: "string \<Rightarrow> string" where
  "str_lower s = map char_lower s"

text \<open>
  \<open>src_folder.glob("*" + ext)\<close> yields the entries of the directory whose name matches
  the pattern, \<open>rglob\<close> the entries of the whole subtree. Both callers pass an extension
  without wildcard characters, so the pattern matches the names that end with it.
\<close>

definition glob :: "filesystem \<Rightarrow> path \<Rightarrow> string \<Rightarrow> path list" where
  "glob f src_folder ext =
     filter (\<lambda>p. p \<noteq> [] \<and> butlast p = src_folder \<and> endswith (last p) ext) (map fst f)"

definition rglob :: "filesystem \<Rightarrow> path \<Rightarrow> string \<Rightarrow> path list" where
  "rglob f src_folder ext =
     filter (\<lambda>p. strict_prefix src_folder p \<and> endswith (last p) ext) (map fst f)"

section \<open>File discovery (\<open>find_dicom\<close>)\<close>

text \<open>
  \<open>sorted\<close> compares paths by their parts, part by part: the lexicographic order on
  lists of strings.
\<close>

definition find_dicom ::
  "filesystem \<Rightarrow> path \<Rightarrow> string \<Rightarrow> bool \<Rightarrow> log_entry list \<Rightarrow> path list \<times> log_entry list" where
  "find_dicom f src_folder file_ext include_recursive lg =
     (let file_paths =
        (if is_dir f src_folder
            \<and> str_lower file_ext \<in> set [''.dcm'', ''.dicom'', ''.gz'', ''.nii'']
         then filter (is_file f)
                (sort ((if include_recursive then rglob else glob) f src_folder file_ext))
         else [])
      in (file_paths, lg @ [Found (length file_paths) file_ext include_recursive]))"

section \<open>Persistence writer (\<open>write_to_file\<close>)\<close>

definition MODULE :: string where
  "MODULE = ''export_dicom_tags''"

text \<open>
  A method call on \<open>df\<close>: when \<open>df\<close> is \<open>None\<close> the attribute lookup itself raises
  \<open>AttributeError\<close>.
\<close>

definition df_to_json :: "env \<Rightarrow> data_frame option \<Rightarrow> path \<Rightarrow> py_error + string" where
  "df_to_json ev df p = (case df of None \<Rightarrow> Inl AttributeError | Some t \<Rightarrow> to_json ev t p)"

definition df_to_csv :: "env \<Rightarrow> data_frame option \<Rightarrow> path \<Rightarrow> py_error + string" where
  "df_to_csv ev df p = (case df of None \<Rightarrow> Inl AttributeError | Some t \<Rightarrow> to_csv ev t p)"

text \<open>
  The \<open>except\<close> clause of \<open>write_to_file\<close> and the \<open>return\<close> behind it. The handler
  formats \<open>csv_path\<close>, a local variable that is bound only after the JSON file has been
  written: reading it before raises \<open>UnboundLocalError\<close> inside the handler.
\<close>

definition write_to_file_except ::
  "py_error \<Rightarrow> path option \<Rightarrow> bool \<Rightarrow> bool \<Rightarrow> world \<Rightarrow> (py_error + bool) \<times> world" where
  "write_to_file_except e csv_path is_csv_saved is_json_saved w =
     (if write_to_file_handles e then
        (case csv_path of
           None \<Rightarrow> (Inl UnboundLocalError, w)
         | Some p \<Rightarrow>
             (Inr (is_csv_saved \<and> is_json_saved),
              w\<lparr>log := log w @ [Exception_logged (limit_path p) e]\<rparr>))
      else (Inl e, w))"

definition write_to_file ::
  "env \<Rightarrow> data_frame option \<Rightarrow> path \<Rightarrow> world \<Rightarrow> (py_error + bool) \<times> world" where
  "write_to_file ev df dst_folder w =
     (let json_path = joinpath dst_folder (MODULE @ ''.json'');
          w1 = (if is_file (fs w) json_path then w\<lparr>fs := unlink (fs w) json_path\<rparr> else w)
      in case df_to_json ev df json_path of
           Inl e \<Rightarrow> write_to_file_except e None False False w1
         | Inr json_text \<Rightarrow>
             (let w2 = w1\<lparr>fs := write_text (fs w1) json_path json_text\<rparr>;
                  is_json_saved = (is_file (fs w2) json_path \<and> st_size (fs w2) json_path > 0);
                  w3 = (if is_json_saved
                        then w2\<lparr>log := log w2 @ [Info (limit_path json_path)]\<rparr> else w2);
                  csv_path = joinpath dst_folder (MODULE @ ''.csv'');
                  w4 = (if is_file (fs w3) csv_path
                        then w3\<lparr>fs := unlink (fs w3) csv_path\<rparr> else w3)
              in case df_to_csv ev df csv_path of
                   Inl e \<Rightarrow> write_to_file_except e (Some csv_path) False is_json_saved w4
                 | Inr csv_text \<Rightarrow>
                     (let w5 = w4\<lparr>fs := write_text (fs w4) csv_path csv_text\<rparr>;
                          is_csv_saved =
                            (is_file (fs w5) csv_path \<and> st_size (fs w5) csv_path > 0);
                          w6 = (if is_csv_saved
                                then w5\<lparr>log := log w5 @ [Info (limit_path csv_path)]\<rparr>
                                else w5)
                      in (Inr (is_csv_saved \<and> is_json_saved), w6))))"

section \<open>Raw dumper\<close>

definition dump_tags_to_txt ::
  "env \<Rightarrow> path \<Rightarrow> path \<Rightarrow> world \<Rightarrow> (py_error + bool) \<times> world" where
  "dump_tags_to_txt ev src_dcm dst_folder w =
     (let w1 = (if \<not> path_exists (fs w) dst_folder
                then w\<lparr>fs := mkdir_parents (fs w) dst_folder\<rparr> else w);
          dump_path = joinpath dst_folder (path_stem src_dcm @ ''.txt'')
      in case dcmread ev src_dcm of
           Inl e \<Rightarrow>
             if dump_tags_to_txt_handles e
             then (Inr False, w1\<lparr>log := log w1 @ [Exception_logged (limit_path src_dcm) e]\<rparr>)
             else (Inl e, w1)
         | Inr ds \<Rightarrow>
             (let w2 = w1\<lparr>fs := write_text (fs w1) dump_path (ds_str ev ds)\<rparr>
              in (Inr (is_file (fs w2) dump_path \<and> st_size (fs w2) dump_path > 0), w2)))"

fun dump_loop :: "env \<Rightarrow> path list \<Rightarrow> path \<Rightarrow> world \<Rightarrow> (py_error + unit) \<times> world" where
  "dump_loop ev [] dst_folder w = (Inr (), w)"
| "dump_loop ev (dcm_path # rest) dst_folder w =
     (case dump_tags_to_txt ev dcm_path dst_folder w of
        (Inl e, w1) \<Rightarrow> (Inl e, w1)
      | (Inr ok, w1) \<Rightarrow> dump_loop ev rest dst_folder w1)"

definition dump_dicom_all_tags ::
  "env \<Rightarrow> path list \<Rightarrow> path \<Rightarrow> world \<Rightarrow> (py_error + unit) \<times> world" where
  "dump_dicom_all_tags ev dicom_paths dst_folder w =
     (let w1 = (if \<not> path_exists (fs w) dst_folder
                then w\<lparr>fs := mkdir_parents (fs w) dst_folder\<rparr> else w);
          txt_paths = filter (is_file (fs w1)) (sort (glob (fs w1) dst_folder ''.txt''));
          w2 = w1\<lparr>log := log w1 @ [Purged (length txt_paths) (limit_path dst_folder)]\<rparr>;
          w3 = w2\<lparr>fs := fold (\<lambda>txt_path g. unlink g txt_path) txt_paths (fs w2)\<rparr>
      in case dump_loop ev dicom_paths dst_folder w3 of
           (Inl e, w4) \<Rightarrow> (Inl e, w4)
         | (Inr u, w4) \<Rightarrow>
             (Inr (),
              w4\<lparr>log := log w4 @ [Dumped (length dicom_paths) (limit_path dst_folder)]\<rparr>))"

section \<open>Pipeline (\<open>run_pipeline\<close>)\<close>

text \<open>
  \<open>cmd_args\<close> is the three validated directories. An exception that no stage handles
  leaves \<open>run_pipeline\<close> and ends the program.
\<close>

record cmd_args =
  input_path :: path
  output_path :: path
  dump_path :: path

definition run_pipeline :: "env \<Rightarrow> cmd_args \<Rightarrow> world \<Rightarrow> (py_error + unit) \<times> world" where
  "run_pipeline ev args w =
     (case find_dicom (fs w) (input_path args) ''.dcm'' False (log w) of
        (dicom_paths, lg1) \<Rightarrow>
          (case extract_to_df ev dicom_paths lg1 of
             (Inl e, lg2) \<Rightarrow> (Inl e, w\<lparr>log := lg2\<rparr>)
           | (Inr df, lg2) \<Rightarrow>
               (case write_to_file ev df (output_path args) (w\<lparr>log := lg2\<rparr>) of
                  (Inl e, w1) \<Rightarrow> (Inl e, w1)
                | (Inr saved, w1) \<Rightarrow>
                    (case dump_dicom_all_tags ev dicom_paths (dump_path args) w1 of
                       (Inl e, w2) \<Rightarrow> (Inl e, w2)
                     | (Inr u, w2) \<Rightarrow> (Inr (), w2\<lparr>log := log w2 @ [Finished]\<rparr>)))))"

section \<open>Notions used to state the properties\<close>

text \<open>
  A path is readable when the format sniff returns \<open>True\<close> and the metadata read returns
  a data set; it raises only handled exceptions when whatever \<open>is_dicom\<close> and \<open>dcmread\<close>
  raise on it belongs to the classes of the handler in \<open>parse_tags\<close>.
\<close>

definition readable :: "env \<Rightarrow> path \<Rightarrow> bool" where
  "readable ev p =
     (case is_dicom ev p of
        Inl e \<Rightarrow> False
      | Inr ok \<Rightarrow> ok \<and> (case dcmread ev p of Inl e \<Rightarrow> False | Inr ds \<Rightarrow> True))"

definition raises_only_handled :: "env \<Rightarrow> path \<Rightarrow> bool" where
  "raises_only_handled ev p =
     (case is_dicom ev p of
        Inl e \<Rightarrow> parse_tags_handles e
      | Inr ok \<Rightarrow>
          if ok then (case dcmread ev p of Inl e \<Rightarrow> parse_tags_handles e | Inr ds \<Rightarrow> True)
          else True)"

text \<open>The record \<open>parse_tags\<close> appends for a path, when it appends one.\<close>

definition record_of :: "env \<Rightarrow> bool \<Rightarrow> path \<Rightarrow> py_dict" where
  "record_of ev sanitize_values p =
     (case read_tags ev sanitize_values p of Inr r \<Rightarrow> r | Inl e \<Rightarrow> [])"

text \<open>
  What one round of the attribute loop stores under \<open>attr\<close>, if anything; and the text a
  finished record holds under \<open>attr\<close>: the value of the file-meta group as it is, the value
  of the main data set sanitized on request, the empty string for a tag that is absent.
\<close>

definition stored_value :: "bool \<Rightarrow> dataset \<Rightarrow> string \<Rightarrow> tag \<Rightarrow> string option" where
  "stored_value sanitize_values ds attr t =
     (if attr \<in> set metadata_attrs then file_meta ds t
      else map_option (\<lambda>v. if sanitize_values then sanitize_tag v else v) (elements ds t))"

definition stored_text :: "bool \<Rightarrow> dataset \<Rightarrow> string \<Rightarrow> tag \<Rightarrow> string" where
  "stored_text sanitize_values ds attr t =
     (if attr \<in> set metadata_attrs
      then (case file_meta ds t of Some v \<Rightarrow> v | None \<Rightarrow> [])
      else (case elements ds t of
              Some v \<Rightarrow> (if sanitize_values then sanitize_tag v else v)
            | None \<Rightarrow> []))"

text \<open>Some metadata attribute of the list is present in the file-meta group.\<close>

definition has_file_meta :: "dataset \<Rightarrow> (string \<times> tag) list \<Rightarrow> bool" where
  "has_file_meta ds xs =
     list_ex (\<lambda>(attr, t). attr \<in> set metadata_attrs \<and> file_meta ds t \<noteq> None) xs"

section \<open>Concrete inputs\<close>

text \<open>
  A data set with a source AE title that holds a punctuation character, and a data set
  whose file-meta group holds none of the three metadata attributes.
\<close>

definition demo_dataset :: dataset where
  "demo_dataset =
     \<lparr>file_meta = map_of [(Tag 0x0002 0x0016, ''PACS#1''),
                          (Tag 0x0002 0x0010, ''1.2.840.10008.1.2.1'')],
      elements = map_of [(Tag 0x0008 0x0060, ''CT''),
                         (Tag 0x0008 0x1030, ''HEAD  (routine)!'')]\<rparr>"

definition bare_dataset :: dataset where
  "bare_dataset =
     \<lparr>file_meta = Map.empty, elements = map_of [(Tag 0x0008 0x0060, ''MR'')]\<rparr>"

text \<open>
  Libraries that work, over an input directory where \<open>notes.dcm\<close> fails the sniff,
  \<open>gone.dcm\<close> cannot be opened, \<open>broken.dcm\<close> passes the sniff and then fails to parse,
  and \<open>bare.dcm\<close> holds \<open>bare_dataset\<close>.
\<close>

definition demo_env :: env where
  "demo_env =
     \<lparr>is_dicom = (\<lambda>p. if p = [''data'', ''input'', ''notes.dcm''] then Inr False
                      else if p = [''data'', ''input'', ''gone.dcm''] then Inl OSError
                      else Inr True),
      dcmread = (\<lambda>p. if p = [''data'', ''input'', ''broken.dcm''] then Inl InvalidDicomError
                     else if p = [''data'', ''input'', ''bare.dcm''] then Inr bare_dataset
                     else Inr demo_dataset),
      ds_str = (\<lambda>ds. ''(0008, 0060) Modality''),
      now = ''2023-01-15 09:30:00'',
      study_date_format = (\<lambda>c. c),
      study_time_format = (\<lambda>c. c),
      to_json = (\<lambda>df p. Inr ''{}''),
      to_csv = (\<lambda>df p. Inr ''filename'')\<rparr>"

text \<open>
  The same libraries, where the metadata read of \<open>odd.dcm\<close> raises an exception of a
  class that the handler of \<open>parse_tags\<close> does not name.
\<close>

definition faulty_env :: env where
  "faulty_env =
     demo_env\<lparr>dcmread := (\<lambda>p. if p = [''data'', ''input'', ''odd.dcm''] then Inl OtherError
                               else dcmread demo_env p)\<rparr>"

text \<open>The same libraries on an output directory that cannot be written to.\<close>

definition readonly_env :: env where
  "readonly_env = demo_env\<lparr>to_json := (\<lambda>df p. Inl PermissionError)\<rparr>"

text \<open>Existing directories, and an input directory without any \<open>.dcm\<close> file.\<close>

definition demo_world :: world where
  "demo_world =
     \<lparr>fs = [([''data''], Directory),
            ([''data'', ''input''], Directory),
            ([''data'', ''input'', ''readme.txt''], RegFile ''no images yet''),
            ([''data'', ''output''], Directory),
            ([''data'', ''tag_dumps''], Directory)],
      log = []\<rparr>"

definition demo_args :: cmd_args where
  "demo_args =
     \<lparr>input_path = [''data'', ''input''],
      output_path = [''data'', ''output''],
      dump_path = [''data'', ''tag_dumps'']\<rparr>"

definition demo_table :: data_frame where
  "demo_table = DataFrame [[(''filename'', ''a.dcm'')]]"


text \<open>An input directory with files in both letter cases and a sub-directory.\<close>

definition demo_fs :: filesystem where
  "demo_fs =
     [([''data''], Directory),
      ([''data'', ''input''], Directory),
      ([''data'', ''input'', ''b.dcm''], RegFile ''DICM''),
      ([''data'', ''input'', ''SCAN.DCM''], RegFile ''DICM''),
      ([''data'', ''input'', ''a.dcm''], RegFile ''DICM''),
      ([''data'', ''input'', ''old.dcm''], Directory),
      ([''data'', ''input'', ''old.dcm'', ''c.dcm''], RegFile ''DICM'')]"

section \<open>Properties of the sanitizer\<close>

lemma remove_symbols_filter:
  "remove_symbols raw clean = clean @ filter (\<lambda>c. c \<notin> set invalid_chars) raw"
  by (induction raw arbitrary: clean) auto

lemma subseq_replace_double_space: "subseq (replace_double_space s) s"
  by (induction s rule: replace_double_space.induct) auto

lemma subseq_collapse_spaces: "subseq (collapse_spaces s) s"
proof (induction s rule: collapse_spaces.induct)
  case (1 clean)
  show ?case
  proof (cases "has_double_space clean")
    case True
    with 1 have "subseq (collapse_spaces (replace_double_space clean))
                   (replace_double_space clean)"
      by simp
    then have "subseq (collapse_spaces (replace_double_space clean)) clean"
      using subseq_replace_double_space subseq_order.order_trans by blast
    with True show ?thesis by (subst collapse_spaces.simps) simp
  next
    case False
    then show ?thesis by (subst collapse_spaces.simps) simp
  qed
qed

lemma collapse_spaces_no_double: "\<not> has_double_space (collapse_spaces s)"
proof (induction s rule: collapse_spaces.induct)
  case (1 clean)
  show ?case
  proof (cases "has_double_space clean")
    case True
    with 1 show ?thesis by (subst collapse_spaces.simps) simp
  next
    case False
    then show ?thesis by (subst collapse_spaces.simps) simp
  qed
qed

lemma collapse_spaces_fixed: "\<not> has_double_space s \<Longrightarrow> collapse_spaces s = s"
  by (subst collapse_spaces.simps) simp

text \<open>\<open>has_double_space\<close> says what its name says: two neighbouring positions hold spaces.\<close>

lemma has_double_space_iff:
  "has_double_space s \<longleftrightarrow>
     (\<exists>i. Suc i < length s \<and> s ! i = space_char \<and> s ! Suc i = space_char)"
proof (induction s rule: has_double_space.induct)
  case (1 a b s)
  show ?case
  proof (cases "a = space_char \<and> b = space_char")
    case True
    have "Suc 0 < length (a # b # s) \<and> (a # b # s) ! 0 = space_char
            \<and> (a # b # s) ! Suc 0 = space_char"
      using True by simp
    then have "\<exists>i. Suc i < length (a # b # s) \<and> (a # b # s) ! i = space_char
                 \<and> (a # b # s) ! Suc i = space_char"
      by (rule exI)
    with True show ?thesis by simp
  next
    case False
    have "(\<exists>i. Suc i < length (a # b # s) \<and> (a # b # s) ! i = space_char
              \<and> (a # b # s) ! Suc i = space_char)
       \<longleftrightarrow> (\<exists>i. Suc i < length (b # s) \<and> (b # s) ! i = space_char
              \<and> (b # s) ! Suc i = space_char)"
      (is "?L \<longleftrightarrow> ?R")
    proof
      assume ?L
      then obtain i where i: "Suc i < length (a # b # s)" "(a # b # s) ! i = space_char"
        "(a # b # s) ! Suc i = space_char"
        by blast
      with False obtain j where "i = Suc j" by (cases i) auto
      with i show ?R by auto
    next
      assume ?R
      then obtain i where "Suc i < length (b # s)" "(b # s) ! i = space_char"
        "(b # s) ! Suc i = space_char"
        by blast
      then show ?L by (intro exI[of _ "Suc i"]) auto
    qed
    moreover have "has_double_space (a # b # s) = has_double_space (b # s)"
      using False by auto
    moreover have "has_double_space (b # s) =
        (\<exists>i. Suc i < length (b # s) \<and> (b # s) ! i = space_char \<and> (b # s) ! Suc i = space_char)"
      using 1 False by blast
    ultimately show ?thesis by (simp only:)
  qed
qed simp_all

lemma subseq_sanitize_tag_filter:
  "subseq (sanitize_tag s) (filter (\<lambda>c. c \<notin> set invalid_chars) s)"
  by (simp add: sanitize_tag_def remove_symbols_filter subseq_collapse_spaces)

lemma set_sanitize_tag: "set (sanitize_tag s) \<subseteq> set s - set invalid_chars"
proof
  fix x
  assume x: "x \<in> set (sanitize_tag s)"
  from list_emb_set[OF subseq_sanitize_tag_filter x]
  have "x \<in> set (filter (\<lambda>c. c \<notin> set invalid_chars) s)"
    by blast
  then show "x \<in> set s - set invalid_chars" by simp
qed

lemma filter_replace_double_space:
  "space_char \<notin> set ks \<Longrightarrow>
     filter (\<lambda>c. c \<in> set ks) (replace_double_space s) = filter (\<lambda>c. c \<in> set ks) s"
  by (induction s rule: replace_double_space.induct) auto

lemma filter_collapse_spaces:
  "space_char \<notin> set ks \<Longrightarrow>
     filter (\<lambda>c. c \<in> set ks) (collapse_spaces s) = filter (\<lambda>c. c \<in> set ks) s"
proof (induction s rule: collapse_spaces.induct)
  case (1 clean)
  show ?case
  proof (cases "has_double_space clean")
    case True
    with 1 have "filter (\<lambda>c. c \<in> set ks) (collapse_spaces (replace_double_space clean))
        = filter (\<lambda>c. c \<in> set ks) (replace_double_space clean)"
      by simp
    also have "\<dots> = filter (\<lambda>c. c \<in> set ks) clean"
      using 1(2) by (rule filter_replace_double_space)
    finally show ?thesis using True by (subst collapse_spaces.simps) simp
  next
    case False
    then show ?thesis by (subst collapse_spaces.simps) simp
  qed
qed

lemma keep_chars_valid: "set keep_chars \<inter> set invalid_chars = {}"
  by (simp add: invalid_chars_def string_punctuation_def keep_chars_def tab_char_def
      newline_char_def)

lemma set_invalid_chars:
  "set invalid_chars =
     (set string_punctuation - set keep_chars) \<union> {tab_char, newline_char}"
  by (auto simp add: invalid_chars_def string_punctuation_def keep_chars_def tab_char_def
      newline_char_def)

lemma filter_keep_sanitize_tag:
  "filter (\<lambda>c. c \<in> set keep_chars) (sanitize_tag s) = filter (\<lambda>c. c \<in> set keep_chars) s"
proof -
  have sp: "space_char \<notin> set keep_chars"
    by (simp add: keep_chars_def space_char_def)
  have "\<And>c. c \<in> set keep_chars \<Longrightarrow> c \<notin> set invalid_chars"
    using keep_chars_valid by auto
  then have "filter (\<lambda>c. c \<in> set keep_chars) (filter (\<lambda>c. c \<notin> set invalid_chars) s)
      = filter (\<lambda>c. c \<in> set keep_chars) s"
    by (auto intro: filter_cong)
  then show ?thesis
    by (simp add: sanitize_tag_def remove_symbols_filter filter_collapse_spaces[OF sp])
qed

text \<open>
  Claim C6. The sanitizer is idempotent: sanitizing an already sanitized string returns
  it unchanged, for every input string.
\<close>

theorem sanitize_tag_idempotent: "sanitize_tag (sanitize_tag s) = sanitize_tag s"
proof -
  let ?t = "sanitize_tag s"
  have "filter (\<lambda>c. c \<notin> set invalid_chars) ?t = ?t"
    using set_sanitize_tag[of s] by (intro filter_True) auto
  then have "remove_symbols ?t [] = ?t"
    by (simp add: remove_symbols_filter)
  moreover have "\<not> has_double_space ?t"
    by (simp add: sanitize_tag_def collapse_spaces_no_double)
  ultimately show ?thesis
    by (simp add: sanitize_tag_def[of ?t] collapse_spaces_fixed)
qed

text \<open>
  Claim C7. For every input string the sanitizer keeps all occurrences of the characters
  \<^verbatim>\<open>- + _ : . |\<close> (the same ones, in the same order), its output holds no other
  punctuation character, no tab and no newline, and no two neighbouring positions of the
  output both hold a space.
\<close>

theorem sanitize_tag_whitelist:
  "filter (\<lambda>c. c \<in> set keep_chars) (sanitize_tag s) = filter (\<lambda>c. c \<in> set keep_chars) s
   \<and> keep_chars = ''-+_:.|''
   \<and> set (sanitize_tag s)
       \<inter> ((set string_punctuation - set keep_chars) \<union> {tab_char, newline_char}) = {}
   \<and> \<not> (\<exists>i. Suc i < length (sanitize_tag s) \<and> sanitize_tag s ! i = space_char
             \<and> sanitize_tag s ! Suc i = space_char)"
proof -
  have "set (sanitize_tag s) \<inter> set invalid_chars = {}"
    using set_sanitize_tag[of s] by auto
  then have "set (sanitize_tag s)
       \<inter> ((set string_punctuation - set keep_chars) \<union> {tab_char, newline_char}) = {}"
    by (simp only: set_invalid_chars)
  moreover have "\<not> has_double_space (sanitize_tag s)"
    by (simp add: sanitize_tag_def collapse_spaces_no_double)
  then have "\<not> (\<exists>i. Suc i < length (sanitize_tag s) \<and> sanitize_tag s ! i = space_char
             \<and> sanitize_tag s ! Suc i = space_char)"
    using has_double_space_iff[of "sanitize_tag s"] by blast
  moreover have "keep_chars = ''-+_:.|''"
    by (simp add: keep_chars_def)
  ultimately show ?thesis
    using filter_keep_sanitize_tag[of s] by blast
qed

text \<open>
  Claim C10. For every input string the output of the sanitizer is a subsequence of the
  input: its characters occur in the input in the same relative order and none is
  introduced. Hence the output is never longer than the input, and the empty string is
  mapped to the empty string.
\<close>

theorem sanitize_tag_subseq:
  "subseq (sanitize_tag s) s
   \<and> set (sanitize_tag s) \<subseteq> set s
   \<and> length (sanitize_tag s) \<le> length s
   \<and> sanitize_tag [] = []"
proof -
  have "subseq (filter (\<lambda>c. c \<notin> set invalid_chars) s) s"
    by simp
  with subseq_sanitize_tag_filter[of s] have sub: "subseq (sanitize_tag s) s"
    using subseq_order.order_trans by blast
  have "sanitize_tag [] = []"
    by (simp add: sanitize_tag_def collapse_spaces_fixed)
  moreover have "set (sanitize_tag s) \<subseteq> set s"
    using set_sanitize_tag[of s] by auto
  moreover have "length (sanitize_tag s) \<le> length s"
    using sub by (rule list_emb_length)
  ultimately show ?thesis using sub by blast
qed

section \<open>Properties of the static tables\<close>

lemma transfer_syntax_keys:
  "map fst (get_transfer_syntax_map False) =
     [''1.2.840.10008.1.2'', ''1.2.840.10008.1.2.1'', ''1.2.840.10008.1.2.2'',
      ''1.2.840.10008.1.2.4.50'', ''1.2.840.10008.1.2.4.51'', ''1.2.840.10008.1.2.4.70'',
      ''1.2.840.10008.1.2.4.80'', ''1.2.840.10008.1.2.4.90'', ''1.2.840.10008.1.2.4.91'',
      ''1.2.840.10008.1.2.5'']"
  by (simp add: get_transfer_syntax_map_def)

lemma dict_get_absent: "k \<notin> set (map fst d) \<Longrightarrow> dict_get d k dflt = dflt"
  by (simp add: dict_get_def map_of_eq_None_iff[THEN iffD2] split: option.splits)

lemma init_header_map_eq:
  "init_header_map fn =
     [(''filename'', fn), (''modality'', []), (''sopInstanceUid'', []),
      (''institution_name'', []), (''manufacturer'', []), (''manufacturer_model'', []),
      (''sourceAET'', []), (''station_name'', []), (''study_description'', []),
      (''study_date'', []), (''study_time'', []), (''transferSyntaxUid'', [])]"
  by (simp add: init_header_map_def map_tag_objects_def)

lemma distinct_map_tag_objects: "distinct (map fst map_tag_objects)"
  by (simp add: map_tag_objects_def)

lemma transferSyntaxName_no_attr: "''transferSyntaxName'' \<notin> set (map fst map_tag_objects)"
  by (simp add: map_tag_objects_def)

lemma init_header_map_attr:
  "(attr, t) \<in> set map_tag_objects \<Longrightarrow> map_of (init_header_map fn) attr = Some []"
  by (auto simp: init_header_map_eq map_tag_objects_def)

section \<open>Properties of the attribute loop\<close>

lemma extract_attr_other:
  "k \<noteq> attr \<Longrightarrow> k \<noteq> ''transferSyntaxName'' \<Longrightarrow>
     map_of (extract_attr ds sv sm (attr, t) ex) k = map_of ex k"
  by (simp add: extract_attr_def update_conv' split: option.splits)

lemma fold_extract_attr_other:
  "k \<notin> set (map fst xs) \<Longrightarrow> k \<noteq> ''transferSyntaxName'' \<Longrightarrow>
     map_of (fold (extract_attr ds sv sm) xs ex) k = map_of ex k"
proof (induction xs arbitrary: ex)
  case Nil
  then show ?case by simp
next
  case (Cons x xs)
  obtain a t where x: "x = (a, t)" by (cases x)
  with Cons show ?case by (simp add: extract_attr_other)
qed

lemma extract_attr_self:
  "attr \<noteq> ''transferSyntaxName'' \<Longrightarrow>
     map_of (extract_attr ds sv sm (attr, t) ex) attr =
       (case stored_value sv ds attr t of Some v \<Rightarrow> Some v | None \<Rightarrow> map_of ex attr)"
  by (simp add: extract_attr_def stored_value_def update_conv' split: option.splits)

text \<open>
  The attribute names are distinct, so the value a record holds under an attribute is
  the one stored in the round of that attribute, or the initial one.
\<close>

lemma fold_extract_attr_self:
  "distinct (map fst xs) \<Longrightarrow> (attr, t) \<in> set xs \<Longrightarrow> attr \<noteq> ''transferSyntaxName'' \<Longrightarrow>
     map_of (fold (extract_attr ds sv sm) xs ex) attr =
       (case stored_value sv ds attr t of Some v \<Rightarrow> Some v | None \<Rightarrow> map_of ex attr)"
proof (induction xs arbitrary: ex)
  case Nil
  then show ?case by simp
next
  case (Cons x xs)
  obtain a u where x: "x = (a, u)" by (cases x)
  show ?case
  proof (cases "(attr, t) = x")
    case True
    then have x': "x = (attr, t)" by simp
    have "attr \<notin> set (map fst xs)"
      using Cons.prems(1) x' by force
    then have "map_of (fold (extract_attr ds sv sm) xs (extract_attr ds sv sm (attr, t) ex)) attr
        = map_of (extract_attr ds sv sm (attr, t) ex) attr"
      using Cons.prems(3) by (rule fold_extract_attr_other)
    also have "\<dots> =
        (case stored_value sv ds attr t of Some v \<Rightarrow> Some v | None \<Rightarrow> map_of ex attr)"
      using Cons.prems(3) by (rule extract_attr_self)
    finally show ?thesis unfolding x' by simp
  next
    case False
    with Cons.prems have in_xs: "(attr, t) \<in> set xs" by auto
    then have "attr \<in> set (map fst xs)" by force
    with Cons.prems(1) x have ne: "attr \<noteq> a" by auto
    have "distinct (map fst xs)"
      using Cons.prems(1) by simp
    from Cons.IH[OF this in_xs Cons.prems(3)]
    have "map_of (fold (extract_attr ds sv sm) xs (extract_attr ds sv sm (a, u) ex)) attr =
        (case stored_value sv ds attr t of Some v \<Rightarrow> Some v
         | None \<Rightarrow> map_of (extract_attr ds sv sm (a, u) ex) attr)" .
    moreover have "map_of (extract_attr ds sv sm (a, u) ex) attr = map_of ex attr"
      using ne Cons.prems(3) by (rule extract_attr_other)
    ultimately show ?thesis unfolding x by (simp split: option.splits)
  qed
qed

text \<open>
  \<open>transferSyntaxUid\<close> is the last attribute of the table, so when the file-meta group
  holds it, the name stored last is the one looked up for it.
\<close>

lemma fold_extract_attr_transferSyntaxName:
  assumes "file_meta ds (Tag 0x0002 0x0010) = Some uid"
  shows "map_of (fold (extract_attr ds sv sm) map_tag_objects ex) ''transferSyntaxName''
           = Some (dict_get sm uid [])"
proof -
  have split: "map_tag_objects =
      butlast map_tag_objects @ [(''transferSyntaxUid'', Tag 0x0002 0x0010)]"
    by (simp add: map_tag_objects_def)
  have "fold (extract_attr ds sv sm) map_tag_objects ex =
        extract_attr ds sv sm (''transferSyntaxUid'', Tag 0x0002 0x0010)
          (fold (extract_attr ds sv sm) (butlast map_tag_objects) ex)"
    by (subst split) simp
  then show ?thesis
    using assms by (simp add: extract_attr_def metadata_attrs_def update_conv')
qed

lemma extract_attr_keys:
  "a \<in> set (map fst ex) \<Longrightarrow>
     map fst (extract_attr ds sv sm (a, t) ex) =
       (if a \<in> set metadata_attrs \<and> file_meta ds t \<noteq> None
           \<and> ''transferSyntaxName'' \<notin> set (map fst ex)
        then map fst ex @ [''transferSyntaxName''] else map fst ex)"
  by (auto simp: extract_attr_def update_keys split: option.splits)

lemma fold_extract_attr_keys:
  "set (map fst xs) \<subseteq> set (map fst ex) \<Longrightarrow>
     map fst (fold (extract_attr ds sv sm) xs ex) =
       (if has_file_meta ds xs \<and> ''transferSyntaxName'' \<notin> set (map fst ex)
        then map fst ex @ [''transferSyntaxName''] else map fst ex)"
proof (induction xs arbitrary: ex)
  case Nil
  then show ?case by (simp add: has_file_meta_def)
next
  case (Cons x xs)
  obtain a t where x: "x = (a, t)" by (cases x)
  from Cons.prems x have a: "a \<in> set (map fst ex)" by simp
  let ?ex' = "extract_attr ds sv sm (a, t) ex"
  have keys: "map fst ?ex' =
      (if a \<in> set metadata_attrs \<and> file_meta ds t \<noteq> None
          \<and> ''transferSyntaxName'' \<notin> set (map fst ex)
       then map fst ex @ [''transferSyntaxName''] else map fst ex)"
    using a by (rule extract_attr_keys)
  then have sub: "set (map fst xs) \<subseteq> set (map fst ?ex')"
    using Cons.prems by (auto split: if_splits)
  from Cons.IH[OF sub] keys show ?case
    unfolding x by (auto simp: has_file_meta_def split: if_splits)
qed

section \<open>Properties of the parser\<close>

lemma read_tags_readable:
  "readable ev p \<Longrightarrow>
     \<exists>ds. dcmread ev p = Inr ds \<and>
       read_tags ev sv p =
         Inr (fold (extract_attr ds sv (get_transfer_syntax_map False))
                map_tag_objects (init_header_map (path_name p)))"
  by (auto simp: readable_def read_tags_def split: sum.splits)

lemma read_tags_not_readable: "\<not> readable ev p \<Longrightarrow> \<exists>e. read_tags ev sv p = Inl e"
  by (auto simp: readable_def read_tags_def split: sum.splits)

lemma read_tags_handled:
  "raises_only_handled ev p \<Longrightarrow> read_tags ev sv p = Inl e \<Longrightarrow> parse_tags_handles e"
  by (auto simp: raises_only_handled_def read_tags_def parse_tags_handles_def
      split: sum.splits if_splits)

text \<open>
  The keys of a record, in order: the file name, the eleven attributes, and
  \<open>transferSyntaxName\<close> only if the file-meta group holds a metadata attribute.
\<close>

lemma read_tags_keys:
  assumes "read_tags ev sv p = Inr r" "dcmread ev p = Inr ds"
  shows "map fst r = [''filename''] @ map fst map_tag_objects
           @ (if has_file_meta ds map_tag_objects then [''transferSyntaxName''] else [])"
proof -
  from assms have r: "r = fold (extract_attr ds sv (get_transfer_syntax_map False))
                              map_tag_objects (init_header_map (path_name p))"
    by (auto simp: read_tags_def split: sum.splits if_splits)
  have k: "map fst (init_header_map (path_name p)) = [''filename''] @ map fst map_tag_objects"
    by (simp add: init_header_map_eq map_tag_objects_def)
  have "set (map fst map_tag_objects) \<subseteq> set (map fst (init_header_map (path_name p)))"
    unfolding k by auto
  from fold_extract_attr_keys[OF this] show ?thesis
    unfolding r k by (simp add: map_tag_objects_def)
qed

text \<open>When the loop ends normally, it has appended the records of the readable paths.\<close>

lemma parse_loop_Inr:
  "parse_loop ev sv paths acc lg = (Inr rs, lg') \<Longrightarrow>
     rs = acc @ map (record_of ev sv) (filter (readable ev) paths)"
proof (induction paths arbitrary: acc lg)
  case Nil
  then show ?case by simp
next
  case (Cons p ps)
  show ?case
  proof (cases "readable ev p")
    case True
    from read_tags_readable[OF True, of sv] obtain r where r: "read_tags ev sv p = Inr r"
      by blast
    with Cons.prems
    have "parse_loop ev sv ps (acc @ [r]) (lg @ [Info (limit_path p)]) = (Inr rs, lg')"
      by simp
    from Cons.IH[OF this] show ?thesis
      using True r by (simp add: record_of_def)
  next
    case False
    from read_tags_not_readable[OF False, of sv] obtain e where e: "read_tags ev sv p = Inl e"
      by blast
    with Cons.prems
    have "parse_loop ev sv ps acc (lg @ [Exception_logged (limit_path p) e]) = (Inr rs, lg')"
      by (simp split: if_splits)
    from Cons.IH[OF this] show ?thesis
      using False by simp
  qed
qed

text \<open>The loop ends normally when every exception raised is a handled one.\<close>

lemma parse_loop_total:
  "\<forall>p\<in>set paths. raises_only_handled ev p \<Longrightarrow>
     \<exists>rs lg'. parse_loop ev sv paths acc lg = (Inr rs, lg')"
proof (induction paths arbitrary: acc lg)
  case Nil
  then show ?case by simp
next
  case (Cons p ps)
  then have ps: "\<forall>p\<in>set ps. raises_only_handled ev p" and p: "raises_only_handled ev p"
    by simp_all
  show ?case
  proof (cases "read_tags ev sv p")
    case (Inl e)
    with read_tags_handled[OF p Inl] Cons.IH[OF ps] show ?thesis by simp
  next
    case (Inr r)
    with Cons.IH[OF ps] show ?thesis by simp
  qed
qed

lemma record_of_value:
  assumes "readable ev p" "dcmread ev p = Inr ds" "(attr, t) \<in> set map_tag_objects"
  shows "map_of (record_of ev sv p) attr = Some (stored_text sv ds attr t)"
proof -
  from read_tags_readable[OF assms(1), of sv] assms(2)
  have r: "record_of ev sv p =
      fold (extract_attr ds sv (get_transfer_syntax_map False))
        map_tag_objects (init_header_map (path_name p))"
    by (auto simp: record_of_def)
  have ne: "attr \<noteq> ''transferSyntaxName''"
    using assms(3) transferSyntaxName_no_attr by force
  show ?thesis
    unfolding r fold_extract_attr_self[OF distinct_map_tag_objects assms(3) ne]
    by (simp add: init_header_map_attr[OF assms(3)] stored_value_def stored_text_def
        split: option.splits)
qed

lemma record_of_transferSyntaxName:
  assumes "readable ev p" "dcmread ev p = Inr ds" "file_meta ds (Tag 0x0002 0x0010) = Some uid"
  shows "map_of (record_of ev sv p) ''transferSyntaxName''
           = Some (dict_get (get_transfer_syntax_map False) uid [])"
proof -
  from read_tags_readable[OF assms(1), of sv] assms(2)
  have r: "record_of ev sv p =
      fold (extract_attr ds sv (get_transfer_syntax_map False))
        map_tag_objects (init_header_map (path_name p))"
    by (auto simp: record_of_def)
  show ?thesis
    unfolding r using assms(3) by (rule fold_extract_attr_transferSyntaxName)
qed

lemmas demo_defs = demo_env_def demo_dataset_def bare_dataset_def

lemmas parse_defs = parse_tags_def read_tags_def init_header_map_def map_tag_objects_def
  extract_attr_def metadata_attrs_def Tag_def get_transfer_syntax_map_def dict_get_def
  path_name_def limit_path_def path_parts_def

lemma sanitize_tag_PACS: "sanitize_tag ''PACS#1'' = ''PACS1''"
  by code_simp

lemma sanitize_tag_HEAD: "sanitize_tag ''HEAD  (routine)!'' = ''HEAD routine''"
  by code_simp

lemma sanitize_tag_CT: "sanitize_tag ''CT'' = ''CT''"
  by code_simp

lemma demo_parse_sanitized:
  "parse_tags demo_env [[''data'', ''input'', ''a.dcm'']] True [] =
     (Inr [[(''filename'', ''a.dcm''), (''modality'', ''CT''), (''sopInstanceUid'', ''''),
            (''institution_name'', ''''), (''manufacturer'', ''''),
            (''manufacturer_model'', ''''), (''sourceAET'', ''PACS#1''),
            (''station_name'', ''''), (''study_description'', ''HEAD routine''),
            (''study_date'', ''''), (''study_time'', ''''),
            (''transferSyntaxUid'', ''1.2.840.10008.1.2.1''),
            (''transferSyntaxName'', ''ExplicitVRLittleEndian'')]],
      [Info ''input/a.dcm''])"
  by (simp add: parse_defs demo_defs sanitize_tag_HEAD sanitize_tag_CT)

text \<open>
  Claim C3. Every record has every column, in the order file name, the eleven
  attributes, \<open>transferSyntaxName\<close>; a value missing from the file is the empty string
  and never an absent key, so \<open>transferSyntaxName\<close> is a key of every record of the
  parser. The parser does not keep this: \<open>init_header_map\<close> gives the file name and the
  eleven attributes their empty default, but \<open>transferSyntaxName\<close> is stored only in the
  branch taken when a metadata attribute is found in the file-meta group. For a file
  whose file-meta group holds none of the three, the record ends with
  \<open>transferSyntaxUid\<close> and has no key \<open>transferSyntaxName\<close>.
\<close>

theorem parse_tags_record_keys_eval:
  "parse_tags demo_env [[''data'', ''input'', ''bare.dcm'']] False [] =
     (Inr [[(''filename'', ''bare.dcm''), (''modality'', ''MR''), (''sopInstanceUid'', ''''),
            (''institution_name'', ''''), (''manufacturer'', ''''),
            (''manufacturer_model'', ''''), (''sourceAET'', ''''), (''station_name'', ''''),
            (''study_description'', ''''), (''study_date'', ''''), (''study_time'', ''''),
            (''transferSyntaxUid'', '''')]],
      [Info ''input/bare.dcm''])"
  by (simp add: parse_defs demo_defs)

text \<open>
  Claim C4 as stated, with sanitizing on the sanitizer is applied to every extracted
  value, the three metadata attributes included, fails: the source AE title
  \<^verbatim>\<open>PACS#1\<close> of the file-meta group is stored as it is, although sanitizing it gives
  \<^verbatim>\<open>PACS1\<close>; the study description of the main data set is sanitized.
\<close>

theorem parse_tags_sanitize_counterexample:
  "fst (parse_tags demo_env [[''data'', ''input'', ''a.dcm'']] True []) =
     Inr [[(''filename'', ''a.dcm''), (''modality'', ''CT''), (''sopInstanceUid'', ''''),
           (''institution_name'', ''''), (''manufacturer'', ''''),
           (''manufacturer_model'', ''''), (''sourceAET'', ''PACS#1''),
           (''station_name'', ''''), (''study_description'', ''HEAD routine''),
           (''study_date'', ''''), (''study_time'', ''''),
           (''transferSyntaxUid'', ''1.2.840.10008.1.2.1''),
           (''transferSyntaxName'', ''ExplicitVRLittleEndian'')]]
   \<and> dcmread demo_env [''data'', ''input'', ''a.dcm''] = Inr demo_dataset
   \<and> file_meta demo_dataset (Tag 0x0002 0x0016) = Some ''PACS#1''
   \<and> sanitize_tag ''PACS#1'' = ''PACS1''"
  by (simp add: demo_parse_sanitized sanitize_tag_PACS) (simp add: demo_defs Tag_def)

text \<open>
  Claim C4, amended. The records the parser returns belong, in order, to the readable
  paths, and each holds under every attribute of the attribute map: for a metadata
  attribute the value of the file-meta group exactly as read, whether sanitizing is on or
  off; for any other attribute the value of the main data set, sanitized when sanitizing
  is on and unaltered when it is off; the empty string when the tag is absent.
\<close>

theorem parse_tags_stored_values:
  assumes "parse_tags ev dicom_paths sanitize_values lg = (Inr tag_dumps, lg')"
  shows "list_all2
           (\<lambda>p r. \<exists>ds. dcmread ev p = Inr ds
                   \<and> (\<forall>(attr, t)\<in>set map_tag_objects.
                         map_of r attr = Some (stored_text sanitize_values ds attr t)))
           (filter (readable ev) dicom_paths) tag_dumps"
proof -
  from assms
  have td: "tag_dumps = map (record_of ev sanitize_values) (filter (readable ev) dicom_paths)"
    using parse_loop_Inr[of ev sanitize_values dicom_paths "[]" lg tag_dumps lg']
    by (simp add: parse_tags_def)
  have "\<exists>ds. dcmread ev p = Inr ds
          \<and> (\<forall>(attr, t)\<in>set map_tag_objects.
                map_of (record_of ev sanitize_values p) attr
                  = Some (stored_text sanitize_values ds attr t))"
    if rd: "readable ev p" for p
  proof -
    from read_tags_readable[OF rd, of sanitize_values]
    obtain ds where ds: "dcmread ev p = Inr ds" by blast
    with rd show ?thesis
      using record_of_value[OF rd ds] by blast
  qed
  then show ?thesis
    unfolding td by (simp add: list_all2_map2 list_all2_same)
qed

theorem parse_tags_stored_values_witness:
  "parse_tags demo_env [[''data'', ''input'', ''a.dcm'']] True [] =
     (Inr [[(''filename'', ''a.dcm''), (''modality'', ''CT''), (''sopInstanceUid'', ''''),
            (''institution_name'', ''''), (''manufacturer'', ''''),
            (''manufacturer_model'', ''''), (''sourceAET'', ''PACS#1''),
            (''station_name'', ''''), (''study_description'', ''HEAD routine''),
            (''study_date'', ''''), (''study_time'', ''''),
            (''transferSyntaxUid'', ''1.2.840.10008.1.2.1''),
            (''transferSyntaxName'', ''ExplicitVRLittleEndian'')]],
      [Info ''input/a.dcm''])
   \<and> list_all2
        (\<lambda>p r. \<exists>ds. dcmread demo_env p = Inr ds
                \<and> (\<forall>(attr, t)\<in>set map_tag_objects.
                      map_of r attr = Some (stored_text True ds attr t)))
        (filter (readable demo_env) [[''data'', ''input'', ''a.dcm'']])
        [[(''filename'', ''a.dcm''), (''modality'', ''CT''), (''sopInstanceUid'', ''''),
          (''institution_name'', ''''), (''manufacturer'', ''''),
          (''manufacturer_model'', ''''), (''sourceAET'', ''PACS#1''),
          (''station_name'', ''''), (''study_description'', ''HEAD routine''),
          (''study_date'', ''''), (''study_time'', ''''),
          (''transferSyntaxUid'', ''1.2.840.10008.1.2.1''),
          (''transferSyntaxName'', ''ExplicitVRLittleEndian'')]]"
  using parse_tags_stored_values[OF demo_parse_sanitized] demo_parse_sanitized by simp











text \<open>
  What the amended claim leaves open: an exception outside the handled classes, raised
  for one path, is not caught by the handler inside the loop. It leaves \<open>parse_tags\<close>,
  and the records of the other paths are lost with it.
\<close>

lemma parse_tags_unhandled_class_eval:
  "parse_tags faulty_env
     [[''data'', ''input'', ''odd.dcm''], [''data'', ''input'', ''a.dcm'']] False []
     = (Inl OtherError, [])"
  by (simp add: faulty_env_def parse_defs demo_defs parse_tags_handles_def)

text \<open>
  Claim C8. Looking up \<^verbatim>\<open>1.2.840.10008.1.2.1\<close> in the transfer syntax map, with the
  empty string as default, gives \<open>ExplicitVRLittleEndian\<close>; the map has ten entries and
  an identifier that is not one of its keys gives the empty string; and the parser stores
  under \<open>transferSyntaxName\<close> the result of this lookup for the transfer syntax
  identifier of the file-meta group.
\<close>

theorem transfer_syntax_resolution:
  "dict_get (get_transfer_syntax_map False) ''1.2.840.10008.1.2.1'' ''''
     = ''ExplicitVRLittleEndian''
   \<and> length (get_transfer_syntax_map False) = 10
   \<and> (unknown \<notin> set (map fst (get_transfer_syntax_map False))
        \<longrightarrow> dict_get (get_transfer_syntax_map False) unknown '''' = '''')
   \<and> (parse_tags ev dicom_paths sanitize_values lg = (Inr tag_dumps, lg')
        \<longrightarrow> list_all2
              (\<lambda>p r. \<forall>ds uid. dcmread ev p = Inr ds
                       \<and> file_meta ds (Tag 0x0002 0x0010) = Some uid
                  \<longrightarrow> map_of r ''transferSyntaxName''
                        = Some (dict_get (get_transfer_syntax_map False) uid ''''))
              (filter (readable ev) dicom_paths) tag_dumps)"
proof -
  have a: "dict_get (get_transfer_syntax_map False) ''1.2.840.10008.1.2.1'' ''''
     = ''ExplicitVRLittleEndian''"
    by (simp add: get_transfer_syntax_map_def dict_get_def)
  have b: "length (get_transfer_syntax_map False) = 10"
    by (simp add: get_transfer_syntax_map_def)
  have c: "unknown \<notin> set (map fst (get_transfer_syntax_map False))
        \<longrightarrow> dict_get (get_transfer_syntax_map False) unknown '''' = ''''"
    by (rule impI) (rule dict_get_absent)
  have d: "list_all2
              (\<lambda>p r. \<forall>ds uid. dcmread ev p = Inr ds
                       \<and> file_meta ds (Tag 0x0002 0x0010) = Some uid
                  \<longrightarrow> map_of r ''transferSyntaxName''
                        = Some (dict_get (get_transfer_syntax_map False) uid ''''))
              (filter (readable ev) dicom_paths) tag_dumps"
    if pt: "parse_tags ev dicom_paths sanitize_values lg = (Inr tag_dumps, lg')"
  proof -
    from pt
    have td: "tag_dumps = map (record_of ev sanitize_values) (filter (readable ev) dicom_paths)"
      using parse_loop_Inr[of ev sanitize_values dicom_paths "[]" lg tag_dumps lg']
      by (simp add: parse_tags_def)
    show ?thesis
      unfolding td using record_of_transferSyntaxName
      by (simp add: list_all2_map2 list_all2_same)
  qed
  from a b c d show ?thesis by blast
qed

theorem transfer_syntax_resolution_witness:
  "''1.2.3'' \<notin> set (map fst (get_transfer_syntax_map False))
   \<and> dict_get (get_transfer_syntax_map False) ''1.2.3'' '''' = ''''
   \<and> parse_tags demo_env [[''data'', ''input'', ''a.dcm'']] True [] =
       (Inr [[(''filename'', ''a.dcm''), (''modality'', ''CT''), (''sopInstanceUid'', ''''),
              (''institution_name'', ''''), (''manufacturer'', ''''),
              (''manufacturer_model'', ''''), (''sourceAET'', ''PACS#1''),
              (''station_name'', ''''), (''study_description'', ''HEAD routine''),
              (''study_date'', ''''), (''study_time'', ''''),
              (''transferSyntaxUid'', ''1.2.840.10008.1.2.1''),
              (''transferSyntaxName'', ''ExplicitVRLittleEndian'')]],
        [Info ''input/a.dcm''])
   \<and> list_all2
        (\<lambda>p r. \<forall>ds uid. dcmread demo_env p = Inr ds
                 \<and> file_meta ds (Tag 0x0002 0x0010) = Some uid
            \<longrightarrow> map_of r ''transferSyntaxName''
                  = Some (dict_get (get_transfer_syntax_map False) uid ''''))
        (filter (readable demo_env) [[''data'', ''input'', ''a.dcm'']])
        [[(''filename'', ''a.dcm''), (''modality'', ''CT''), (''sopInstanceUid'', ''''),
          (''institution_name'', ''''), (''manufacturer'', ''''),
          (''manufacturer_model'', ''''), (''sourceAET'', ''PACS#1''),
          (''station_name'', ''''), (''study_description'', ''HEAD routine''),
          (''study_date'', ''''), (''study_time'', ''''),
          (''transferSyntaxUid'', ''1.2.840.10008.1.2.1''),
          (''transferSyntaxName'', ''ExplicitVRLittleEndian'')]]"
  using transfer_syntax_resolution[of "''1.2.3''" demo_env "[[''data'', ''input'', ''a.dcm'']]" True "[]"
      "[[(''filename'', ''a.dcm''), (''modality'', ''CT''), (''sopInstanceUid'', ''''),
          (''institution_name'', ''''), (''manufacturer'', ''''),
          (''manufacturer_model'', ''''), (''sourceAET'', ''PACS#1''),
          (''station_name'', ''''), (''study_description'', ''HEAD routine''),
          (''study_date'', ''''), (''study_time'', ''''),
          (''transferSyntaxUid'', ''1.2.840.10008.1.2.1''),
          (''transferSyntaxName'', ''ExplicitVRLittleEndian'')]]" "[Info ''input/a.dcm'']"]
    demo_parse_sanitized
  by (simp add: transfer_syntax_keys)

section \<open>Properties of the writer and the pipeline\<close>

lemma write_to_file_None: "fst (write_to_file ev None dst_folder w) = Inl AttributeError"
  by (simp add: write_to_file_def df_to_json_def write_to_file_except_def
      write_to_file_handles_def Let_def)

lemma extract_to_df_empty: "extract_to_df ev [] lg = (Inr None, lg)"
  by (simp add: extract_to_df_def parse_tags_def)

lemma run_pipeline_nothing:
  assumes "fst (extract_to_df ev
                  (fst (find_dicom (fs w) (input_path args) ''.dcm'' False (log w)))
                  (snd (find_dicom (fs w) (input_path args) ''.dcm'' False (log w))))
             = Inr None"
  shows "fst (run_pipeline ev args w) = Inl AttributeError"
proof -
  obtain dicom_paths lg1
    where fd: "find_dicom (fs w) (input_path args) ''.dcm'' False (log w) = (dicom_paths, lg1)"
    by (cases "find_dicom (fs w) (input_path args) ''.dcm'' False (log w)")
  obtain r lg2 where ex: "extract_to_df ev dicom_paths lg1 = (r, lg2)"
    by (cases "extract_to_df ev dicom_paths lg1")
  from assms fd ex have r: "r = Inr None" by simp
  obtain wr w1
    where wr: "write_to_file ev None (output_path args) (w\<lparr>log := lg2\<rparr>) = (wr, w1)"
    by (cases "write_to_file ev None (output_path args) (w\<lparr>log := lg2\<rparr>)")
  from write_to_file_None[of ev "output_path args" "w\<lparr>log := lg2\<rparr>"] wr
  have "wr = Inl AttributeError" by simp
  with fd ex r wr show ?thesis by (simp add: run_pipeline_def)
qed

lemma write_to_file_json_error:
  assumes "to_json ev t (joinpath dst_folder (MODULE @ ''.json'')) = Inl e"
      and "write_to_file_handles e"
  shows "fst (write_to_file ev (Some t) dst_folder w) = Inl UnboundLocalError"
  using assms
  by (simp add: write_to_file_def df_to_json_def write_to_file_except_def Let_def)

lemma write_to_file_csv_error:
  assumes "to_json ev t (joinpath dst_folder (MODULE @ ''.json'')) = Inr js"
      and "to_csv ev t (joinpath dst_folder (MODULE @ ''.csv'')) = Inl e"
      and "write_to_file_handles e"
  shows "fst (write_to_file ev (Some t) dst_folder w) = Inr False"
  using assms
  by (simp add: write_to_file_def df_to_json_def df_to_csv_def write_to_file_except_def Let_def)

lemma find_dicom_demo_world:
  "find_dicom (fs demo_world) (input_path demo_args) ''.dcm'' False (log demo_world)
     = ([], [Found 0 ''.dcm'' False])"
  by (simp add: find_dicom_def demo_world_def demo_args_def glob_def endswith_def is_dir_def)

text \<open>
  Claim C1. When file discovery finds no file, or parsing yields no record, the pipeline
  writes no CSV or JSON file and ends without a fatal error, the writer being a no-op.
  The pipeline does not keep this: \<open>extract_to_df\<close> returns \<open>None\<close>, \<open>run_pipeline\<close>
  passes it to \<open>write_to_file\<close> without a test, and the call \<open>df.to_json\<close> raises
  \<open>AttributeError\<close>, which the handler of \<open>write_to_file\<close> does not name. On an input
  directory without \<open>.dcm\<close> files the run ends with that exception, before the dump
  stage and the final log entry.
\<close>

theorem run_pipeline_empty_input_eval:
  "find_dicom (fs demo_world) (input_path demo_args) ''.dcm'' False (log demo_world)
     = ([], [Found 0 ''.dcm'' False])
   \<and> extract_to_df demo_env [] [Found 0 ''.dcm'' False] = (Inr None, [Found 0 ''.dcm'' False])
   \<and> run_pipeline demo_env demo_args demo_world
       = (Inl AttributeError, demo_world\<lparr>log := [Found 0 ''.dcm'' False]\<rparr>)"
  by (simp add: find_dicom_demo_world extract_to_df_empty run_pipeline_def write_to_file_def
      df_to_json_def write_to_file_except_def write_to_file_handles_def Let_def)
     (simp add: demo_world_def demo_args_def is_file_def joinpath_def MODULE_def)

text \<open>
  Claim C2. A write failure in \<open>write_to_file\<close>, such as a permission error raised
  while the JSON or the CSV file is written, is caught and logged there, the function
  returns \<open>False\<close>, and no exception leaves it. The writer does not keep this for the
  JSON file: the handler formats \<open>csv_path\<close>, which is bound only after the JSON file has
  been written, so a \<open>PermissionError\<close> raised by \<open>to_json\<close> ends in an
  \<open>UnboundLocalError\<close> that leaves \<open>write_to_file\<close>.
\<close>

theorem write_to_file_json_permission_eval:
  "to_json readonly_env demo_table (joinpath [''data'', ''output''] (MODULE @ ''.json''))
     = Inl PermissionError
   \<and> write_to_file readonly_env (Some demo_table) [''data'', ''output''] demo_world
       = (Inl UnboundLocalError, demo_world)"
  by (simp add: readonly_env_def write_to_file_def df_to_json_def write_to_file_except_def
      write_to_file_handles_def Let_def)
     (simp add: demo_world_def is_file_def joinpath_def MODULE_def)

section \<open>Properties of file discovery\<close>

lemma is_file_in_fs: "is_file f p \<Longrightarrow> p \<in> set (map fst f)"
  by (auto simp: is_file_def split: option.splits dest: map_of_SomeD intro: rev_image_eqI)

text \<open>
  Claim C9 as stated, an extension selector that is not one of \<^verbatim>\<open>.dcm\<close>,
  \<^verbatim>\<open>.dicom\<close>, \<^verbatim>\<open>.gz\<close>, \<^verbatim>\<open>.nii\<close> gives the empty list, fails: the
  selector is compared in lower case, so \<^verbatim>\<open>.DCM\<close> is accepted and the files ending
  in \<^verbatim>\<open>.DCM\<close> are returned.
\<close>

theorem find_dicom_extension_counterexample:
  "''.DCM'' \<notin> set [''.dcm'', ''.dicom'', ''.gz'', ''.nii'']
   \<and> fst (find_dicom demo_fs [''data'', ''input''] ''.DCM'' False [])
       = [[''data'', ''input'', ''SCAN.DCM'']]"
  by (simp add: find_dicom_def demo_fs_def glob_def endswith_def is_dir_def is_file_def
      str_lower_def char_lower_def)

text \<open>
  Claim C9, amended. File discovery returns a list sorted in the lexicographic order of
  paths that holds exactly the regular files below the source directory (its entries,
  or its whole subtree when recursive) whose name ends with the selector; when the
  source is not an existing directory, or the selector in lower case is not one of
  \<^verbatim>\<open>.dcm\<close>, \<^verbatim>\<open>.dicom\<close>, \<^verbatim>\<open>.gz\<close>, \<^verbatim>\<open>.nii\<close>, it returns the empty list. No
  exception is raised: the function is total.
\<close>

theorem find_dicom_sorted_files:
  fixes f src_folder file_ext include_recursive lg
  defines "r \<equiv> fst (find_dicom f src_folder file_ext include_recursive lg)"
  shows "sorted r
    \<and> set r =
        (if is_dir f src_folder
            \<and> str_lower file_ext \<in> set [''.dcm'', ''.dicom'', ''.gz'', ''.nii'']
         then {p. is_file f p
                \<and> (if include_recursive then strict_prefix src_folder p
                   else p \<noteq> [] \<and> butlast p = src_folder)
                \<and> endswith (last p) file_ext}
         else {})
    \<and> (\<not> is_dir f src_folder
          \<or> str_lower file_ext \<notin> set [''.dcm'', ''.dicom'', ''.gz'', ''.nii'']
        \<longrightarrow> r = [])"
proof (cases "is_dir f src_folder
                \<and> str_lower file_ext \<in> set [''.dcm'', ''.dicom'', ''.gz'', ''.nii'']")
  case False
  then have "r = []" by (auto simp: r_def find_dicom_def)
  with False show ?thesis by auto
next
  case True
  then have r: "r = filter (is_file f)
                      (sort ((if include_recursive then rglob else glob) f src_folder file_ext))"
    by (simp add: r_def find_dicom_def Let_def)
  have "sorted r"
    unfolding r by (rule sorted_wrt_filter[OF sorted_sort])
  moreover have "set r = {p. is_file f p
                \<and> (if include_recursive then strict_prefix src_folder p
                   else p \<noteq> [] \<and> butlast p = src_folder)
                \<and> endswith (last p) file_ext}"
    unfolding r using is_file_in_fs[of f] by (auto simp: glob_def rglob_def)
  ultimately show ?thesis using True by simp
qed

lemma find_dicom_demo_recursive:
  "fst (find_dicom demo_fs [''data'', ''input''] ''.dcm'' True []) =
     [[''data'', ''input'', ''a.dcm''], [''data'', ''input'', ''b.dcm''],
      [''data'', ''input'', ''old.dcm'', ''c.dcm'']]"
  by (simp add: find_dicom_def demo_fs_def rglob_def endswith_def is_dir_def is_file_def
      str_lower_def char_lower_def less_eq_char_def less_char_def)

theorem find_dicom_sorted_files_witness:
  "str_lower ''.txt'' \<notin> set [''.dcm'', ''.dicom'', ''.gz'', ''.nii'']
   \<and> fst (find_dicom demo_fs [''data'', ''input''] ''.txt'' True []) = []
   \<and> sorted (fst (find_dicom demo_fs [''data'', ''input''] ''.dcm'' True []))
   \<and> fst (find_dicom demo_fs [''data'', ''input''] ''.dcm'' True []) =
       [[''data'', ''input'', ''a.dcm''], [''data'', ''input'', ''b.dcm''],
        [''data'', ''input'', ''old.dcm'', ''c.dcm'']]"
proof -
  have h: "str_lower ''.txt'' \<notin> set [''.dcm'', ''.dicom'', ''.gz'', ''.nii'']"
    by (simp add: str_lower_def char_lower_def)
  from find_dicom_sorted_files[of demo_fs "[''data'', ''input'']" "''.txt''" True "[]"] h
  have "fst (find_dicom demo_fs [''data'', ''input''] ''.txt'' True []) = []"
    by blast
  moreover from find_dicom_sorted_files[of demo_fs "[''data'', ''input'']" "''.dcm''" True "[]"]
  have "sorted (fst (find_dicom demo_fs [''data'', ''input''] ''.dcm'' True []))"
    by blast
  ultimately show ?thesis
    using h find_dicom_demo_recursive by blast
qed

end
